theory Spec2Isabelle
  imports Main "HOL-Library.Sublist"
begin

section \<open>Python strings\<close>

text \<open>
  A Python \<open>str\<close> is a sequence of Unicode code points: \<open>len\<close>, slicing and
  \<open>split\<close> count code points, not bytes. It is modelled as a list of code points;
  \<open>str\<close> turns an ASCII literal into that representation.
\<close>

type_synonym pystr = "nat list"

definition str :: "string \<Rightarrow> pystr" where
  "str s = map of_char s"

text \<open>
  \<open>str.isspace\<close> on one code point: the code points CPython treats as whitespace
  (U+0009..U+000D, U+001C..U+0020, U+0085, U+00A0, U+1680, U+2000..U+200A, U+2028,
  U+2029, U+202F, U+205F, U+3000).
\<close>

definition isspace :: "nat \<Rightarrow> bool" where
  "isspace c =
     ((9 \<le> c \<and> c \<le> 13) \<or> (28 \<le> c \<and> c \<le> 32) \<or> c = 133 \<or> c = 160 \<or> c = 5760 \<or>
      (8192 \<le> c \<and> c \<le> 8202) \<or> c = 8232 \<or> c = 8233 \<or> c = 8239 \<or> c = 8287 \<or> c = 12288)"

text \<open>\<open>s.strip()\<close>: leading and trailing whitespace removed.\<close>

definition strip :: "pystr \<Rightarrow> pystr" where
  "strip s = rev (dropWhile isspace (rev (dropWhile isspace s)))"

text \<open>
  \<open>text.split(sep)\<close> for a non-empty separator: the text is scanned from the left, every
  occurrence of \<open>sep\<close> found ends a piece and the scan goes on behind it. (Python raises
  ValueError for an empty separator; the source only ever passes \<open>'. '\<close>.)
\<close>

fun cons_first :: "'a \<Rightarrow> 'a list list \<Rightarrow> 'a list list" where
  "cons_first c [] = [[c]]"
| "cons_first c (p # ps) = (c # p) # ps"

function py_split :: "'a list \<Rightarrow> 'a list \<Rightarrow> 'a list list" where
  "py_split sep text =
     (if sep \<noteq> [] \<and> prefix sep text then [] # py_split sep (drop (length sep) text)
      else (case text of [] \<Rightarrow> [[]] | c # cs \<Rightarrow> cons_first c (py_split sep cs)))"
  by pat_completeness auto
termination
  by (relation "measure (\<lambda>(sep, text). length text)") (auto simp: prefix_def)

declare py_split.simps [simp del]

text \<open>\<open>sep.join(xs)\<close>.\<close>

fun py_join :: "'a list \<Rightarrow> 'a list list \<Rightarrow> 'a list" where
  "py_join sep [] = []"
| "py_join sep [x] = x"
| "py_join sep (x # y # ys) = x @ sep @ py_join sep (y # ys)"

text \<open>\<open>range(i, stop, step)\<close> for a positive step, and the slice \<open>xs[i:j]\<close> for \<open>i \<le> j\<close>.\<close>

function py_range :: "nat \<Rightarrow> nat \<Rightarrow> nat \<Rightarrow> nat list" where
  "py_range i stop step =
     (if step = 0 \<or> stop \<le> i then [] else i # py_range (i + step) stop step)"
  by pat_completeness auto
termination
  by (relation "measure (\<lambda>(i, stop, step). stop - i)") auto

declare py_range.simps [simp del]

definition slice :: "'a list \<Rightarrow> nat \<Rightarrow> nat \<Rightarrow> 'a list" where
  "slice xs i j = take (j - i) (drop i xs)"

text \<open>\<open>str(n)\<close> of a natural number, as an f-string renders it: its decimal digits.\<close>

function str_of_nat :: "nat \<Rightarrow> pystr" where
  "str_of_nat n = (if n < 10 then [48 + n] else str_of_nat (n div 10) @ [48 + n mod 10])"
  by pat_completeness auto
termination
  by (relation "measure id") auto

declare str_of_nat.simps [simp del]


section \<open>The translation stage\<close>

text \<open>
  The translation backend is a collaborator. Its answer to the \<open>k\<close>-th call of a run, for
  a sentence and a target language, is \<open>Some\<close> translated text, or \<open>None\<close> when
  \<open>translator.translate\<close> raises.
\<close>

type_synonym translator = "nat \<Rightarrow> pystr \<Rightarrow> pystr \<Rightarrow> pystr option"

text \<open>
  The exceptions of the model: gTTS raised for the chunk of the given index; the manifest
  could not be opened, or the file system refused a rename; a file to remove or rename is
  not there; \<open>temp_files[0]\<close> on an empty list; the transcription raised.
\<close>

datatype error =
    TTSError nat
  | OSError
  | FileNotFoundError pystr
  | IndexError
  | TranscriptionError

text \<open>
  The loop of \<open>translate_text\<close> (audio\_translator.py, lines 55 to 69) and of
  \<open>translate_text_async\<close> (main.py, lines 191 to 205), which are the same text: a sentence
  that is blank after \<open>strip\<close> is skipped; otherwise the translator is called once, and
  the sentence itself is appended when the call raises. \<open>k\<close> counts the calls made.
\<close>

fun translate_sentences ::
  "translator \<Rightarrow> pystr \<Rightarrow> nat \<Rightarrow> pystr list \<Rightarrow> pystr list \<Rightarrow> pystr list" where
  "translate_sentences tr target_language k [] translated_sentences = translated_sentences"
| "translate_sentences tr target_language k (sentence # sentences) translated_sentences =
     (if strip sentence = [] then
        translate_sentences tr target_language k sentences translated_sentences
      else
        (case tr k sentence target_language of
           Some translated \<Rightarrow>
             translate_sentences tr target_language (Suc k) sentences
               (translated_sentences @ [translated])
         | None \<Rightarrow>
             translate_sentences tr target_language (Suc k) sentences
               (translated_sentences @ [sentence])))"

text \<open>The list \<open>translated_sentences\<close> as it stands when the loop ends.\<close>

definition translated_sentences :: "translator \<Rightarrow> pystr \<Rightarrow> pystr \<Rightarrow> pystr list" where
  "translated_sentences tr text target_language =
     translate_sentences tr target_language 0 (py_split (str ''. '') text) []"

text \<open>
  The outer handler logs and re-raises; for a \<open>str\<close> argument nothing outside the inner
  handler raises, so both functions return.
\<close>

definition translate_text :: "translator \<Rightarrow> pystr \<Rightarrow> pystr \<Rightarrow> error + pystr" where
  "translate_text tr text target_language =
     Inr (py_join (str ''. '') (translated_sentences tr text target_language))"

definition translate_text_async :: "translator \<Rightarrow> pystr \<Rightarrow> pystr \<Rightarrow> error + pystr" where
  "translate_text_async tr text target_language =
     Inr (py_join (str ''. '') (translated_sentences tr text target_language))"

text \<open>
  The segments that reach the translator: the pieces of \<open>text.split('. ')\<close> that are not
  blank, in order.
\<close>

definition segments :: "pystr \<Rightarrow> pystr list" where
  "segments text = filter (\<lambda>sentence. strip sentence \<noteq> []) (py_split (str ''. '') text)"

text \<open>
  The number of occurrences of a separator in a text: the positions at which the
  separator starts.
\<close>

fun occurrences :: "'a list \<Rightarrow> 'a list \<Rightarrow> nat" where
  "occurrences sep [] = 0"
| "occurrences sep (c # cs) = (if prefix sep (c # cs) then 1 else 0) + occurrences sep cs"

text \<open>
  Translation stubs of the specification's scenarios: one that returns its input in
  upper case (ASCII letters), one that returns its input.
\<close>

definition upper_char :: "nat \<Rightarrow> nat" where
  "upper_char c = (if 97 \<le> c \<and> c \<le> 122 then c - 32 else c)"

definition upper_stub :: translator where
  "upper_stub k sentence target_language = Some (map upper_char sentence)"

definition identity_stub :: translator where
  "identity_stub k sentence target_language = Some sentence"

text \<open>
  The stub of the specification's second scenario: it fails on the call of index \<open>i\<close>
  only, and returns its input in upper case otherwise.
\<close>

definition failing_stub :: "nat \<Rightarrow> translator" where
  "failing_stub i k sentence target_language =
     (if k = i then None else Some (map upper_char sentence))"


section \<open>The synthesis stage\<close>

definition max_chunk_size :: nat where
  "max_chunk_size = 5000"

text \<open>\<open>[text[i:i+max_chunk_size] for i in range(0, len(text), max_chunk_size)]\<close>\<close>

definition split_chunks :: "'a list \<Rightarrow> nat \<Rightarrow> 'a list list" where
  "split_chunks text cap =
     map (\<lambda>i. slice text i (i + cap)) (py_range 0 (length text) cap)"

text \<open>
  The working directory: a file name maps to what the file holds. An audio file holds the
  chunks it speaks, in order; the concatenation manifest holds the file names it lists.
\<close>

datatype content = Audio "pystr list" | Manifest "pystr list" | Other

datatype call =
    Save pystr pystr pystr
  | WriteManifest pystr "pystr list"
  | Ffmpeg pystr pystr
  | Remove pystr
  | Rename pystr pystr

text \<open>
  The state a call works on: the files, and the log of the external calls made (kept so
  that a theorem can say which calls a run made, and in which order).
\<close>

record world =
  files :: "pystr \<rightharpoonup> content"
  calls :: "call list"

text \<open>
  What the collaborators and the file system do in a run: whether \<open>gTTS(...).save\<close>
  succeeds for the \<open>i\<close>-th chunk, whether the manifest can be opened for writing,
  whether \<open>ffmpeg\<close> is able to run, and whether the file system lets an existing file
  of one name be renamed to another (the directory of the target exists, the target is
  not a directory, source and target are on one file system).
\<close>

record env =
  gTTS_ok :: "nat \<Rightarrow> pystr \<Rightarrow> pystr \<Rightarrow> bool"
  open_ok :: bool
  ffmpeg_ok :: bool
  rename_ok :: "pystr \<Rightarrow> pystr \<Rightarrow> bool"

text \<open>
  \<open>gTTS(text=chunk, lang=language, slow=False).save(temp_file)\<close>. A failing call raises;
  it is taken to leave the directory as it was.
\<close>

definition tts_save :: "env \<Rightarrow> nat \<Rightarrow> pystr \<Rightarrow> pystr \<Rightarrow> pystr \<Rightarrow> world \<Rightarrow> (error + unit) \<times> world" where
  "tts_save E i chunk language temp_file w =
     (if gTTS_ok E i chunk language then
        (Inr (), w\<lparr>files := (files w)(temp_file \<mapsto> Audio [chunk]),
                   calls := calls w @ [Save temp_file chunk language]\<rparr>)
      else
        (Inl (TTSError i), w\<lparr>calls := calls w @ [Save temp_file chunk language]\<rparr>))"

text \<open>
  \<open>os.path.exists\<close>, \<open>os.remove\<close> and \<open>os.rename\<close>. Removing fails when the file is
  not there. Renaming fails when the source is not there (FileNotFoundError), and when
  the file system refuses the target (an OSError: its directory is missing, it is a
  directory, or it is on another file system); a failed rename leaves the source where
  it is. A rename onto an existing file replaces it.
\<close>

definition os_path_exists :: "pystr \<Rightarrow> world \<Rightarrow> bool" where
  "os_path_exists p w = (files w p \<noteq> None)"

definition os_remove :: "pystr \<Rightarrow> world \<Rightarrow> (error + unit) \<times> world" where
  "os_remove p w =
     (if os_path_exists p w then
        (Inr (), w\<lparr>files := (files w)(p := None), calls := calls w @ [Remove p]\<rparr>)
      else (Inl (FileNotFoundError p), w\<lparr>calls := calls w @ [Remove p]\<rparr>))"

definition os_rename :: "env \<Rightarrow> pystr \<Rightarrow> pystr \<Rightarrow> world \<Rightarrow> (error + unit) \<times> world" where
  "os_rename E src dst w =
     (case files w src of
        None \<Rightarrow> (Inl (FileNotFoundError src), w\<lparr>calls := calls w @ [Rename src dst]\<rparr>)
      | Some c \<Rightarrow>
          (if rename_ok E src dst then
             (Inr (), w\<lparr>files := ((files w)(src := None))(dst \<mapsto> c),
                        calls := calls w @ [Rename src dst]\<rparr>)
           else (Inl OSError, w\<lparr>calls := calls w @ [Rename src dst]\<rparr>)))"

text \<open>
  \<open>with open(concat_file, "w") as f: for temp_file in temp_files: f.write(...)\<close>
\<close>

definition write_manifest :: "env \<Rightarrow> pystr \<Rightarrow> pystr list \<Rightarrow> world \<Rightarrow> (error + unit) \<times> world" where
  "write_manifest E concat_file temp_files w =
     (if open_ok E then
        (Inr (), w\<lparr>files := (files w)(concat_file \<mapsto> Manifest temp_files),
                   calls := calls w @ [WriteManifest concat_file temp_files]\<rparr>)
      else (Inl OSError, w\<lparr>calls := calls w @ [WriteManifest concat_file temp_files]\<rparr>))"

text \<open>
  \<open>os.system("ffmpeg -f concat -safe 0 -i concat_file -c copy output_path")\<close>.
  \<open>os.system\<close> never raises: it returns the exit status of the command. When it
  succeeds, ffmpeg writes to \<open>output_path\<close> the audio of the listed files, in the
  order of the manifest; it fails when it cannot run, when the manifest is not one, or
  when a listed file is not an audio file.
\<close>

fun ffmpeg_concat :: "(pystr \<rightharpoonup> content) \<Rightarrow> pystr list \<Rightarrow> pystr list option" where
  "ffmpeg_concat fs [] = Some []"
| "ffmpeg_concat fs (p # ps) =
     (case fs p of
        Some (Audio a) \<Rightarrow>
          (case ffmpeg_concat fs ps of Some b \<Rightarrow> Some (a @ b) | None \<Rightarrow> None)
      | _ \<Rightarrow> None)"

definition os_system_ffmpeg :: "env \<Rightarrow> pystr \<Rightarrow> pystr \<Rightarrow> world \<Rightarrow> nat \<times> world" where
  "os_system_ffmpeg E concat_file output_path w =
     (let w' = w\<lparr>calls := calls w @ [Ffmpeg concat_file output_path]\<rparr> in
      if ffmpeg_ok E then
        (case files w concat_file of
           Some (Manifest ps) \<Rightarrow>
             (case ffmpeg_concat (files w) ps of
                Some a \<Rightarrow> (0, w'\<lparr>files := (files w)(output_path \<mapsto> Audio a)\<rparr>)
              | None \<Rightarrow> (1, w'))
         | _ \<Rightarrow> (1, w'))
      else (1, w'))"

text \<open>
  The names of the temporary files: \<open>f"temp_{i}.mp3"\<close> and \<open>"concat_list.txt"\<close> in
  audio\_translator.py, \<open>f"temp_{i}_{os.getpid()}.mp3"\<close> and
  \<open>f"concat_list_{os.getpid()}.txt"\<close> in main.py.
\<close>

definition temp_file_name :: "nat \<Rightarrow> pystr" where
  "temp_file_name i = str ''temp_'' @ str_of_nat i @ str ''.mp3''"

definition concat_file_name :: pystr where
  "concat_file_name = str ''concat_list.txt''"

definition temp_file_name_async :: "nat \<Rightarrow> nat \<Rightarrow> pystr" where
  "temp_file_name_async pid i =
     str ''temp_'' @ str_of_nat i @ str ''_'' @ str_of_nat pid @ str ''.mp3''"

definition concat_file_name_async :: "nat \<Rightarrow> pystr" where
  "concat_file_name_async pid = str ''concat_list_'' @ str_of_nat pid @ str ''.txt''"

text \<open>
  \<open>for i, chunk in enumerate(chunks)\<close>: each chunk is synthesised and saved under its
  temporary name, which is appended to \<open>temp_files\<close>; the first failing call raises,
  and the files saved before it stay.
\<close>

fun save_chunks ::
  "env \<Rightarrow> (nat \<Rightarrow> pystr) \<Rightarrow> pystr \<Rightarrow> nat \<Rightarrow> pystr list \<Rightarrow> pystr list \<Rightarrow> world \<Rightarrow>
   (error + pystr list) \<times> world" where
  "save_chunks E name language i [] temp_files w = (Inr temp_files, w)"
| "save_chunks E name language i (chunk # chunks) temp_files w =
     (case tts_save E i chunk language (name i) w of
        (Inl e, w') \<Rightarrow> (Inl e, w')
      | (Inr _, w') \<Rightarrow> save_chunks E name language (Suc i) chunks (temp_files @ [name i]) w')"

text \<open>\<open>for temp_file in temp_files: os.remove(temp_file)\<close> (audio\_translator.py)\<close>

fun remove_all :: "pystr list \<Rightarrow> world \<Rightarrow> (error + unit) \<times> world" where
  "remove_all [] w = (Inr (), w)"
| "remove_all (temp_file # temp_files) w =
     (case os_remove temp_file w of
        (Inl e, w') \<Rightarrow> (Inl e, w')
      | (Inr _, w') \<Rightarrow> remove_all temp_files w')"

text \<open>
  \<open>for temp_file in temp_files: if os.path.exists(temp_file): os.remove(temp_file)\<close>
  (main.py)
\<close>

definition remove_if_exists :: "pystr \<Rightarrow> world \<Rightarrow> (error + unit) \<times> world" where
  "remove_if_exists p w = (if os_path_exists p w then os_remove p w else (Inr (), w))"

fun remove_all_existing :: "pystr list \<Rightarrow> world \<Rightarrow> (error + unit) \<times> world" where
  "remove_all_existing [] w = (Inr (), w)"
| "remove_all_existing (temp_file # temp_files) w =
     (case remove_if_exists temp_file w of
        (Inl e, w') \<Rightarrow> (Inl e, w')
      | (Inr _, w') \<Rightarrow> remove_all_existing temp_files w')"

text \<open>
  \<open>text_to_speech\<close> of audio\_translator.py (lines 85 to 121). The handler logs and
  re-raises, so an error leaves the function as it arose, with the directory as it then
  is. The exit status of \<open>os.system\<close> is dropped.
\<close>

definition text_to_speech :: "env \<Rightarrow> pystr \<Rightarrow> pystr \<Rightarrow> pystr \<Rightarrow> world \<Rightarrow> (error + unit) \<times> world" where
  "text_to_speech E text output_path language w =
     (let chunks = split_chunks text max_chunk_size in
      case save_chunks E temp_file_name language 0 chunks [] w of
        (Inl e, w1) \<Rightarrow> (Inl e, w1)
      | (Inr temp_files, w1) \<Rightarrow>
          if length temp_files > 1 then
            (let concat_file = concat_file_name in
             case write_manifest E concat_file temp_files w1 of
               (Inl e, w2) \<Rightarrow> (Inl e, w2)
             | (Inr _, w2) \<Rightarrow>
                 (case os_system_ffmpeg E concat_file output_path w2 of
                    (status, w3) \<Rightarrow>
                      (case remove_all temp_files w3 of
                         (Inl e, w4) \<Rightarrow> (Inl e, w4)
                       | (Inr _, w4) \<Rightarrow> os_remove concat_file w4)))
          else
            (case temp_files of
               [] \<Rightarrow> (Inl IndexError, w1)
             | temp_file # _ \<Rightarrow> os_rename E temp_file output_path w1))"

text \<open>
  \<open>_text_to_speech\<close> inside \<open>text_to_speech_async\<close> of main.py (lines 221 to 259),
  in a process whose id is \<open>pid\<close>.
\<close>

definition text_to_speech_async ::
  "nat \<Rightarrow> env \<Rightarrow> pystr \<Rightarrow> pystr \<Rightarrow> pystr \<Rightarrow> world \<Rightarrow> (error + unit) \<times> world" where
  "text_to_speech_async pid E text output_path language w =
     (let chunks = split_chunks text max_chunk_size in
      case save_chunks E (temp_file_name_async pid) language 0 chunks [] w of
        (Inl e, w1) \<Rightarrow> (Inl e, w1)
      | (Inr temp_files, w1) \<Rightarrow>
          if length temp_files > 1 then
            (let concat_file = concat_file_name_async pid in
             case write_manifest E concat_file temp_files w1 of
               (Inl e, w2) \<Rightarrow> (Inl e, w2)
             | (Inr _, w2) \<Rightarrow>
                 (case os_system_ffmpeg E concat_file output_path w2 of
                    (status, w3) \<Rightarrow>
                      (case remove_all_existing temp_files w3 of
                         (Inl e, w4) \<Rightarrow> (Inl e, w4)
                       | (Inr _, w4) \<Rightarrow> remove_if_exists concat_file w4)))
          else
            (case temp_files of
               [] \<Rightarrow> (Inl IndexError, w1)
             | temp_file # _ \<Rightarrow> os_rename E temp_file output_path w1))"


section \<open>Notions used to state what a synthesis run does\<close>

text \<open>
  The names \<open>temp_files\<close> holds after \<open>n\<close> chunks have been saved, starting at index
  \<open>i\<close>.
\<close>

fun names_from :: "(nat \<Rightarrow> pystr) \<Rightarrow> nat \<Rightarrow> nat \<Rightarrow> pystr list" where
  "names_from name i 0 = []"
| "names_from name i (Suc n) = name i # names_from name (Suc i) n"

text \<open>The directory after the chunks have been saved under these names, in order.\<close>

fun saved :: "(nat \<Rightarrow> pystr) \<Rightarrow> nat \<Rightarrow> pystr list \<Rightarrow> (pystr \<rightharpoonup> content) \<Rightarrow> (pystr \<rightharpoonup> content)" where
  "saved name i [] f = f"
| "saved name i (chunk # chunks) f = saved name (Suc i) chunks (f(name i \<mapsto> Audio [chunk]))"

text \<open>The directory after the files of a list have been removed, in order.\<close>

fun without :: "(pystr \<rightharpoonup> content) \<Rightarrow> pystr list \<Rightarrow> (pystr \<rightharpoonup> content)" where
  "without f [] = f"
| "without f (p # ps) = without (f(p := None)) ps"

text \<open>
  The state after a run with more than one chunk in which every chunk was synthesised and
  the manifest was written: the chunks saved, the manifest written, the output written
  by ffmpeg if ffmpeg succeeded, then the temporary files and the manifest removed.
\<close>

definition multi_result ::
  "env \<Rightarrow> (nat \<Rightarrow> pystr) \<Rightarrow> pystr \<Rightarrow> pystr list \<Rightarrow> pystr \<Rightarrow> pystr \<Rightarrow> world \<Rightarrow> world" where
  "multi_result E name concat_file chunks output_path language w =
     (let temp_files = names_from name 0 (length chunks);
          written = (saved name 0 chunks (files w))(concat_file \<mapsto> Manifest temp_files);
          concatenated =
            (if ffmpeg_ok E then written(output_path \<mapsto> Audio chunks) else written)
      in w\<lparr>files := (without concatenated temp_files)(concat_file := None),
           calls := calls w @ map (\<lambda>(j, c). Save (name j) c language) (enumerate 0 chunks) @
             [WriteManifest concat_file temp_files, Ffmpeg concat_file output_path] @
             map Remove temp_files @ [Remove concat_file]\<rparr>)"

text \<open>
  Collaborators for the scenarios: all of them succeed; the synthesis of chunk \<open>k\<close>
  fails; ffmpeg fails; the file system refuses every rename (as for an output path in a
  directory that does not exist). And a directory with no file in it.
\<close>

definition always_ok :: env where
  "always_ok =
     \<lparr>gTTS_ok = (\<lambda>i chunk language. True), open_ok = True, ffmpeg_ok = True,
      rename_ok = (\<lambda>src dst. True)\<rparr>"


definition ffmpeg_fails :: env where
  "ffmpeg_fails =
     \<lparr>gTTS_ok = (\<lambda>i chunk language. True), open_ok = True, ffmpeg_ok = False,
      rename_ok = (\<lambda>src dst. True)\<rparr>"


definition empty_dir :: world where
  "empty_dir = \<lparr>files = Map.empty, calls = []\<rparr>"


section \<open>Upload validation of the service\<close>

text \<open>
  \<open>s.lower()\<close> on ASCII letters. Elsewhere the code point is kept: \<open>str.lower\<close> maps no
  code point outside ASCII to a character of the allowed extensions, so membership in
  \<open>allowed_extensions\<close> is the same.
\<close>

definition lower_char :: "nat \<Rightarrow> nat" where
  "lower_char c = (if 65 \<le> c \<and> c \<le> 90 then c + 32 else c)"

definition lower :: "pystr \<Rightarrow> pystr" where
  "lower s = map lower_char s"

definition startswith :: "pystr \<Rightarrow> pystr \<Rightarrow> bool" where
  "startswith s p = prefix p s"

text \<open>
  \<open>Path(filename).name\<close>: the last component of the path that is neither empty nor
  \<open>'.'\<close>, or \<open>''\<close> when there is none.
\<close>

definition path_name :: "pystr \<Rightarrow> pystr" where
  "path_name filename =
     (case rev (filter (\<lambda>part. part \<noteq> [] \<and> part \<noteq> str ''.'') (py_split (str ''/'') filename)) of
        [] \<Rightarrow> []
      | part # _ \<Rightarrow> part)"

text \<open>\<open>name.rfind('.')\<close>: the index of the last dot, if there is one.\<close>

fun rfind_dot :: "pystr \<Rightarrow> nat option" where
  "rfind_dot [] = None"
| "rfind_dot (c # cs) =
     (case rfind_dot cs of
        Some i \<Rightarrow> Some (Suc i)
      | None \<Rightarrow> (if c = 46 then Some 0 else None))"

text \<open>
  \<open>Path(filename).suffix\<close>: with \<open>i = name.rfind('.')\<close>, it is \<open>name[i:]\<close> if
  \<open>0 < i < len(name) - 1\<close> and \<open>''\<close> otherwise (pathlib up to Python 3.13, on POSIX
  paths).
\<close>

definition path_suffix :: "pystr \<Rightarrow> pystr" where
  "path_suffix filename =
     (let name = path_name filename in
      case rfind_dot name of
        None \<Rightarrow> []
      | Some i \<Rightarrow> (if 0 < i \<and> Suc i < length name then drop i name else []))"

definition allowed_extensions :: "pystr list" where
  "allowed_extensions =
     [str ''.wav'', str ''.mp3'', str ''.aiff'', str ''.flac'', str ''.ogg'', str ''.m4a'',
      str ''.mp4'']"

text \<open>
  The check both endpoints make first (main.py, lines 69 to 72 and 118 to 121):
  \<open>not file.content_type or (not file.content_type.startswith('audio/') and
  file_extension not in allowed_extensions)\<close>. A missing content type is \<open>None\<close>.
\<close>

definition upload_rejected :: "pystr option \<Rightarrow> pystr \<Rightarrow> bool" where
  "upload_rejected content_type filename =
     (let file_extension = lower (path_suffix filename) in
      (case content_type of
         None \<Rightarrow> True
       | Some ct \<Rightarrow>
           ct = [] \<or> (\<not> startswith ct (str ''audio/'') \<and> file_extension \<notin> set allowed_extensions)))"

text \<open>
  The status of a response. \<open>processing\<close> is the outcome of the endpoint's \<open>try\<close>
  block (transcription, translation and, for the second endpoint, synthesis): any
  exception there becomes status 500.
\<close>

definition translate_audio_endpoint :: "pystr option \<Rightarrow> pystr \<Rightarrow> (error + 'a) \<Rightarrow> nat" where
  "translate_audio_endpoint content_type filename processing =
     (if upload_rejected content_type filename then 400
      else (case processing of Inl e \<Rightarrow> 500 | Inr r \<Rightarrow> 200))"

definition translate_and_synthesize_endpoint :: "pystr option \<Rightarrow> pystr \<Rightarrow> (error + 'a) \<Rightarrow> nat" where
  "translate_and_synthesize_endpoint content_type filename processing =
     (if upload_rejected content_type filename then 400
      else (case processing of Inl e \<Rightarrow> 500 | Inr r \<Rightarrow> 200))"

text \<open>
  The two checks as the specification words them: the declared content type starts with
  \<open>audio/\<close>; the extension is in the allow-list.
\<close>

definition content_type_check :: "pystr option \<Rightarrow> bool" where
  "content_type_check content_type =
     (case content_type of None \<Rightarrow> False | Some ct \<Rightarrow> startswith ct (str ''audio/''))"

definition extension_check :: "pystr \<Rightarrow> bool" where
  "extension_check filename = (lower (path_suffix filename) \<in> set allowed_extensions)"


section \<open>Properties of the splitting into chunks\<close>

lemma py_range_stop: "stop \<le> i \<Longrightarrow> py_range i stop step = []"
  by (subst py_range.simps) simp

lemma py_range_step: "0 < step \<Longrightarrow> i < stop \<Longrightarrow> py_range i stop step = i # py_range (i + step) stop step"
  by (subst py_range.simps) simp

lemma concat_slices:
  "0 < c \<Longrightarrow> n = length xs \<Longrightarrow>
   concat (map (\<lambda>i. slice xs i (i + c)) (py_range k n c)) = drop k xs"
proof (induction k n c rule: py_range.induct)
  case (1 i stop step)
  show ?case
  proof (cases "stop \<le> i")
    case True
    with 1(3) show ?thesis by (simp add: py_range_stop)
  next
    case False
    then have ih: "concat (map (\<lambda>i. slice xs i (i + step)) (py_range (i + step) stop step)) = drop (i + step) xs"
      using 1 by simp
    have "take step (drop i xs) @ drop (i + step) xs = drop i xs"
      by (metis add.commute append_take_drop_id drop_drop)
    with False 1(2) ih show ?thesis
      by (simp add: py_range_step slice_def)
  qed
qed

lemma length_py_range:
  "0 < c \<Longrightarrow> length (py_range k n c) = (n - k + c - 1) div c"
proof (induction k n c rule: py_range.induct)
  case (1 i stop step)
  show ?case
  proof (cases "stop \<le> i")
    case True
    with 1(2) show ?thesis by (simp add: py_range_stop)
  next
    case False
    with 1 have ih: "length (py_range (i + step) stop step) = (stop - (i + step) + step - 1) div step"
      by simp
    have unf: "length (py_range i stop step) = Suc (length (py_range (i + step) stop step))"
      using False 1(2) by (simp add: py_range_step)
    show ?thesis
    proof (cases "stop \<le> i + step")
      case True
      have "stop - i + step - 1 = step + (stop - i - 1)" using False by simp
      moreover have "stop - i - 1 < step" using True False by simp
      ultimately have "(stop - i + step - 1) div step = 1"
        using 1(2) by (simp only: div_add_self1 div_less)
      moreover have "(stop - (i + step) + step - 1) div step = 0"
        using True 1(2) by simp
      ultimately show ?thesis using unf ih by simp
    next
      case F2: False
      have "stop - i + step - 1 = (stop - (i + step) + step - 1) + step" using F2 by simp
      then have "(stop - i + step - 1) div step = Suc ((stop - (i + step) + step - 1) div step)"
        using 1(2) by (simp only: div_add_self2)
      then show ?thesis using unf ih by simp
    qed
  qed
qed

lemma nth_py_range:
  "0 < c \<Longrightarrow> j < length (py_range k n c) \<Longrightarrow> py_range k n c ! j = k + j * c"
proof (induction k n c arbitrary: j rule: py_range.induct)
  case (1 i stop step)
  show ?case
  proof (cases "stop \<le> i")
    case True
    with 1(3) show ?thesis by (simp add: py_range_stop)
  next
    case False
    then have unf: "py_range i stop step = i # py_range (i + step) stop step"
      using 1(2) by (simp add: py_range_step)
    show ?thesis
    proof (cases j)
      case 0
      then show ?thesis using unf by simp
    next
      case (Suc j')
      then have "j' < length (py_range (i + step) stop step)" using 1(3) unf by simp
      then have "py_range (i + step) stop step ! j' = i + step + j' * step"
        using 1(1) False 1(2) by simp
      then show ?thesis using unf Suc by simp
    qed
  qed
qed

lemma py_range_less: "i \<in> set (py_range k n c) \<Longrightarrow> i < n"
proof (induction k n c rule: py_range.induct)
  case (1 k stop step)
  show ?case
  proof (cases "step = 0 \<or> stop \<le> k")
    case True
    with 1(2) show ?thesis by (subst (asm) py_range.simps) simp
  next
    case False
    then have "py_range k stop step = k # py_range (k + step) stop step"
      by (simp add: py_range_step)
    with 1 False show ?thesis by auto
  qed
qed

lemma length_slice_le: "length (slice xs i (i + c)) \<le> c"
  by (simp add: slice_def)

lemma slice_nonempty: "0 < c \<Longrightarrow> i < length xs \<Longrightarrow> slice xs i (i + c) \<noteq> []"
  by (simp add: slice_def)

lemma concat_split_chunks: "0 < cap \<Longrightarrow> concat (split_chunks xs cap) = xs"
  by (simp add: split_chunks_def concat_slices)

lemma length_split_chunks: "0 < cap \<Longrightarrow> length (split_chunks xs cap) = (length xs + cap - 1) div cap"
  by (simp add: split_chunks_def length_py_range)

lemma nth_split_chunks:
  "0 < cap \<Longrightarrow> k < length (split_chunks xs cap) \<Longrightarrow>
   split_chunks xs cap ! k = slice xs (k * cap) (k * cap + cap)"
  by (simp add: split_chunks_def nth_py_range)

lemma chunk_bounds:
  "0 < cap \<Longrightarrow> chunk \<in> set (split_chunks xs cap) \<Longrightarrow> chunk \<noteq> [] \<and> length chunk \<le> cap"
  by (auto simp: split_chunks_def length_slice_le slice_nonempty dest: py_range_less)

text \<open>
  Claim C4. For every text and every positive cap, the chunks are contiguous slices of the
  text in order (chunk \<open>k\<close> is \<open>text[k*cap : k*cap+cap]\<close>), each chunk has at most
  \<open>cap\<close> characters, their lengths add up to the length of the text, and their
  concatenation in order is the text; a text of 12000 characters gives exactly 3 chunks
  under the cap of 5000 the synthesis stage uses.
\<close>

theorem split_chunks_partition:
  "0 < cap \<Longrightarrow>
     concat (split_chunks xs cap) = xs \<and>
     sum_list (map length (split_chunks xs cap)) = length xs \<and>
     (\<forall>chunk \<in> set (split_chunks xs cap). length chunk \<le> cap) \<and>
     (\<forall>k < length (split_chunks xs cap).
        split_chunks xs cap ! k = slice xs (k * cap) (k * cap + cap)) \<and>
     (length xs = 12000 \<longrightarrow> length (split_chunks xs max_chunk_size) = 3)"
proof (intro conjI ballI allI impI)
  assume c: "0 < cap"
  show "concat (split_chunks xs cap) = xs" using c by (rule concat_split_chunks)
  then have "length (concat (split_chunks xs cap)) = length xs" by simp
  then show "sum_list (map length (split_chunks xs cap)) = length xs"
    by (simp add: length_concat)
  show "length chunk \<le> cap" if "chunk \<in> set (split_chunks xs cap)" for chunk
    using c that chunk_bounds by blast
  show "split_chunks xs cap ! k = slice xs (k * cap) (k * cap + cap)"
    if "k < length (split_chunks xs cap)" for k
    using c that by (rule nth_split_chunks)
  show "length (split_chunks xs max_chunk_size) = 3" if "length xs = 12000"
    using that by (simp add: length_split_chunks max_chunk_size_def)
qed

text \<open>The theorem at a text of 7 characters with cap 3, and at a text of 12000 characters.\<close>

lemma split_small: "split_chunks (str ''abcdefg'') 3 = [str ''abc'', str ''def'', str ''g'']"
  by (simp add: split_chunks_def py_range.simps slice_def str_def)

theorem split_chunks_partition_witness:
  "(0::nat) < 3 \<and>
   split_chunks (str ''abcdefg'') 3 = [str ''abc'', str ''def'', str ''g''] \<and>
   concat (split_chunks (str ''abcdefg'') 3) = str ''abcdefg'' \<and>
   sum_list (map length (split_chunks (str ''abcdefg'') 3)) = length (str ''abcdefg'') \<and>
   str ''g'' \<in> set (split_chunks (str ''abcdefg'') 3) \<and> length (str ''g'') \<le> 3 \<and>
   length (replicate 12000 (97::nat)) = 12000 \<and>
   length (split_chunks (replicate 12000 (97::nat)) max_chunk_size) = 3"
proof -
  have small: "concat (split_chunks (str ''abcdefg'') 3) = str ''abcdefg'' \<and>
      sum_list (map length (split_chunks (str ''abcdefg'') 3)) = length (str ''abcdefg'') \<and>
      (\<forall>chunk \<in> set (split_chunks (str ''abcdefg'') 3). length chunk \<le> 3)"
    using split_chunks_partition [of 3 "str ''abcdefg''"] by simp
  have big: "length (split_chunks (replicate 12000 (97::nat)) max_chunk_size) = 3"
    using split_chunks_partition [of 5000 "replicate 12000 (97::nat)"] by simp
  have mem: "str ''g'' \<in> set (split_chunks (str ''abcdefg'') 3)"
    by (simp add: split_small)
  show ?thesis using small big mem split_small by simp
qed


section \<open>Properties of split and join\<close>

lemma str_dot_space: "str ''. '' = [46, 32]"
  by (simp add: str_def)

lemma cons_first_nonempty: "cons_first c pss \<noteq> []"
  by (cases pss) simp_all

lemma length_cons_first: "pss \<noteq> [] \<Longrightarrow> length (cons_first c pss) = length pss"
  by (cases pss) simp_all

lemma py_split_nonempty: "py_split sep xs \<noteq> []"
  by (subst py_split.simps) (simp add: cons_first_nonempty split: list.splits)

lemma py_split_prefix:
  "sep \<noteq> [] \<Longrightarrow> prefix sep xs \<Longrightarrow> py_split sep xs = [] # py_split sep (drop (length sep) xs)"
  by (subst py_split.simps) simp

lemma py_split_Nil: "py_split sep [] = [[]]"
  by (subst py_split.simps) simp

lemma py_split_Cons:
  "\<not> prefix sep (c # cs) \<Longrightarrow> py_split sep (c # cs) = cons_first c (py_split sep cs)"
  by (subst py_split.simps) simp

lemma py_split_Cons_if:
  "py_split sep (c # cs) =
     (if sep \<noteq> [] \<and> prefix sep (c # cs) then [] # py_split sep (drop (length sep) (c # cs))
      else cons_first c (py_split sep cs))"
  by (subst py_split.simps) simp

text \<open>The equations that evaluate the translation stage on a given text.\<close>

lemmas eval_simps = str_def py_split_Nil py_split_Cons_if segments_def strip_def isspace_def
  translate_text_def translated_sentences_def upper_stub_def upper_char_def identity_stub_def
  failing_stub_def

lemma py_join_cons_first: "pss \<noteq> [] \<Longrightarrow> py_join sep (cons_first c pss) = c # py_join sep pss"
proof (cases pss)
  case Nil
  assume "pss \<noteq> []"
  with Nil show ?thesis by simp
next
  case (Cons p ps)
  then show ?thesis by (cases ps) simp_all
qed

lemma py_join_Nil_Cons: "pss \<noteq> [] \<Longrightarrow> py_join sep ([] # pss) = sep @ py_join sep pss"
  by (cases pss) simp_all

lemma py_join_split: "sep \<noteq> [] \<Longrightarrow> py_join sep (py_split sep xs) = xs"
proof (induction sep xs rule: py_split.induct)
  case (1 sep xs)
  show ?case
  proof (cases "prefix sep xs")
    case True
    have "py_join sep (py_split sep (drop (length sep) xs)) = drop (length sep) xs"
      using 1(1) 1(3) True by simp
    moreover have "sep @ drop (length sep) xs = xs"
      using True by (auto simp: prefix_def)
    ultimately show ?thesis
      using True 1(3) by (simp add: py_split_prefix py_join_Nil_Cons py_split_nonempty)
  next
    case False
    show ?thesis
    proof (cases xs)
      case Nil
      then show ?thesis by (simp add: py_split_Nil)
    next
      case (Cons c cs)
      have "py_join sep (py_split sep cs) = cs"
        using 1(2) 1(3) False Cons by simp
      then show ?thesis
        using Cons False by (simp add: py_split_Cons py_join_cons_first py_split_nonempty)
    qed
  qed
qed

lemma length_py_split:
  "a \<noteq> b \<Longrightarrow> sep = [a, b] \<Longrightarrow> length (py_split sep xs) = Suc (occurrences sep xs)"
proof (induction sep xs rule: py_split.induct)
  case (1 sep xs)
  show ?case
  proof (cases "prefix sep xs")
    case True
    then obtain rest where xs: "xs = a # b # rest"
      using 1(4) by (auto simp: prefix_def)
    have "length (py_split sep rest) = Suc (occurrences sep rest)"
      using 1(1) [OF _ 1(3) 1(4)] True 1(4) xs by simp
    moreover have "\<not> prefix sep (b # rest)"
      using 1(3) 1(4) by simp
    ultimately show ?thesis
      using True xs 1(4) by (simp add: py_split_prefix)
  next
    case False
    show ?thesis
    proof (cases xs)
      case Nil
      then show ?thesis by (simp add: py_split_Nil)
    next
      case (Cons c cs)
      have "length (py_split sep cs) = Suc (occurrences sep cs)"
        using 1(2) [OF _ Cons 1(3) 1(4)] False by simp
      then show ?thesis
        using Cons False by (simp add: py_split_Cons length_cons_first py_split_nonempty)
    qed
  qed
qed

lemma strip_Nil: "strip [] = []"
  by (simp add: strip_def)

section \<open>Properties of the translation stage\<close>

lemma translate_sentences_eq:
  "translate_sentences tr lang k ss acc =
     acc @ map (\<lambda>(j, s). case tr j s lang of Some t \<Rightarrow> t | None \<Rightarrow> s)
             (enumerate k (filter (\<lambda>s. strip s \<noteq> []) ss))"
proof (induction ss arbitrary: k acc)
  case Nil
  then show ?case by simp
next
  case (Cons s ss)
  then show ?case by (simp split: option.splits)
qed

lemma translated_sentences_eq:
  "translated_sentences tr xs lang =
     map (\<lambda>(j, s). case tr j s lang of Some t \<Rightarrow> t | None \<Rightarrow> s) (enumerate 0 (segments xs))"
  by (simp add: translated_sentences_def segments_def translate_sentences_eq)

lemma length_translated_sentences:
  "length (translated_sentences tr xs lang) = length (segments xs)"
  by (simp add: translated_sentences_eq)

lemma nth_translated_sentences:
  "j < length (segments xs) \<Longrightarrow>
   translated_sentences tr xs lang ! j =
     (case tr j (segments xs ! j) lang of Some t \<Rightarrow> t | None \<Rightarrow> segments xs ! j)"
  by (simp add: translated_sentences_eq nth_enumerate_eq)

text \<open>
  Claim C1. When the translation call for segment \<open>i\<close> fails, the list of results has one
  entry per segment, its entry \<open>i\<close> is segment \<open>i\<close> itself, every other entry \<open>j\<close> is
  what the translator answered for segment \<open>j\<close> (or segment \<open>j\<close> itself if that call failed
  too), no other entry depends on what the translator does at call \<open>i\<close>, and both
  \<open>translate_text\<close> and \<open>translate_text_async\<close> return the joined results instead of raising.
\<close>

theorem translation_failure_is_local:
  assumes "i < length (segments xs)"
    and "tr i (segments xs ! i) lang = None"
  shows "length (translated_sentences tr xs lang) = length (segments xs) \<and>
         translated_sentences tr xs lang ! i = segments xs ! i \<and>
         (\<forall>j < length (segments xs). j \<noteq> i \<longrightarrow>
            translated_sentences tr xs lang ! j =
              (case tr j (segments xs ! j) lang of Some t \<Rightarrow> t | None \<Rightarrow> segments xs ! j)) \<and>
         (\<forall>tr'. (\<forall>j s. j \<noteq> i \<longrightarrow> tr' j s lang = tr j s lang) \<longrightarrow>
            (\<forall>j < length (segments xs). j \<noteq> i \<longrightarrow>
               translated_sentences tr' xs lang ! j = translated_sentences tr xs lang ! j)) \<and>
         translate_text tr xs lang =
           Inr (py_join (str ''. '') (translated_sentences tr xs lang)) \<and>
         translate_text_async tr xs lang =
           Inr (py_join (str ''. '') (translated_sentences tr xs lang))"
  using assms
  by (simp add: length_translated_sentences nth_translated_sentences
      translate_text_def translate_text_async_def)

text \<open>
  The specification's second scenario: the stub fails on segment 1 of
  \<open>"Hello world. This is a test."\<close> only.
\<close>

lemma segments_hello:
  "segments (str ''Hello world. This is a test.'') = [str ''Hello world'', str ''This is a test.'']"
  by (simp add: eval_simps)

lemma translate_failing_hello:
  "translate_text (failing_stub 1) (str ''Hello world. This is a test.'') (str ''es'') =
     Inr (str ''HELLO WORLD. This is a test.'')"
  by (simp add: eval_simps)

theorem translation_failure_is_local_witness:
  "(1::nat) < length (segments (str ''Hello world. This is a test.'')) \<and>
   failing_stub 1 1 (segments (str ''Hello world. This is a test.'') ! 1) (str ''es'') = None \<and>
   translated_sentences (failing_stub 1) (str ''Hello world. This is a test.'') (str ''es'') ! 1 =
     str ''This is a test.'' \<and>
   translate_text (failing_stub 1) (str ''Hello world. This is a test.'') (str ''es'') =
     Inr (str ''HELLO WORLD. This is a test.'')"
proof -
  have a: "(1::nat) < length (segments (str ''Hello world. This is a test.''))"
    by (simp add: segments_hello)
  have b: "failing_stub 1 1 (segments (str ''Hello world. This is a test.'') ! 1) (str ''es'') = None"
    by (simp add: failing_stub_def)
  from translation_failure_is_local
    [of 1 "str ''Hello world. This is a test.''" "failing_stub 1" "str ''es''", OF a b]
  have "translated_sentences (failing_stub 1) (str ''Hello world. This is a test.'') (str ''es'') ! 1 =
     segments (str ''Hello world. This is a test.'') ! 1"
    by simp
  then show ?thesis using a b translate_failing_hello by (simp add: segments_hello)
qed


section \<open>The segments of a text\<close>

lemma segments_nonblank: "s \<in> set (segments xs) \<Longrightarrow> s \<noteq> [] \<and> strip s \<noteq> []"
  by (auto simp: segments_def strip_Nil)

lemma length_segments: "length (segments xs) \<le> Suc (occurrences (str ''. '') xs)"
proof -
  have "length (segments xs) \<le> length (py_split (str ''. '') xs)"
    by (simp add: segments_def)
  also have "\<dots> = Suc (occurrences (str ''. '') xs)"
    by (rule length_py_split [of 46 32]) (simp_all add: str_dot_space)
  finally show ?thesis .
qed

text \<open>
  Claim C5, as amended. \<open>text.split('. ')\<close> cuts at the literal delimiter only: it gives
  exactly \<open>N + 1\<close> pieces for a text with \<open>N\<close> occurrences of \<open>". "\<close>, and the pieces
  joined by the delimiter are the text. The segments are the pieces that are not blank, so
  there are at most \<open>N + 1\<close> of them, and every segment is non-empty and not
  whitespace-only. A segment is a piece as it stands: it is not trimmed.
\<close>

theorem segments_spec:
  "length (py_split (str ''. '') xs) = occurrences (str ''. '') xs + 1 \<and>
   py_join (str ''. '') (py_split (str ''. '') xs) = xs \<and>
   segments xs = filter (\<lambda>s. strip s \<noteq> []) (py_split (str ''. '') xs) \<and>
   length (segments xs) \<le> occurrences (str ''. '') xs + 1 \<and>
   (\<forall>s \<in> set (segments xs). s \<noteq> [] \<and> strip s \<noteq> [] \<and> s \<in> set (py_split (str ''. '') xs))"
proof (intro conjI ballI)
  show "length (py_split (str ''. '') xs) = occurrences (str ''. '') xs + 1"
    using length_py_split [of 46 32 "str ''. ''" xs] by (simp add: str_dot_space)
  show "py_join (str ''. '') (py_split (str ''. '') xs) = xs"
    by (rule py_join_split) (simp add: str_dot_space)
  show "segments xs = filter (\<lambda>s. strip s \<noteq> []) (py_split (str ''. '') xs)"
    by (simp add: segments_def)
  show "length (segments xs) \<le> occurrences (str ''. '') xs + 1"
    using length_segments [of xs] by simp
  show "s \<noteq> []" if "s \<in> set (segments xs)" for s
    using that segments_nonblank by blast
  show "strip s \<noteq> []" if "s \<in> set (segments xs)" for s
    using that segments_nonblank by blast
  show "s \<in> set (py_split (str ''. '') xs)" if "s \<in> set (segments xs)" for s
    using that by (simp add: segments_def)
qed

text \<open>The text \<open>"Hi.  Bye. "\<close>: two delimiters, three pieces, two segments.\<close>

lemma segments_hi_bye: "segments (str ''Hi.  Bye. '') = [str ''Hi'', str '' Bye'']"
  by (simp add: eval_simps)

lemma occurrences_hi_bye: "occurrences (str ''. '') (str ''Hi.  Bye. '') = 2"
  by (simp add: eval_simps)

lemma strip_bye: "strip (str '' Bye'') = str ''Bye''"
  by (simp add: eval_simps)

theorem segments_spec_witness:
  "segments (str ''Hi.  Bye. '') = [str ''Hi'', str '' Bye''] \<and>
   occurrences (str ''. '') (str ''Hi.  Bye. '') = 2 \<and>
   length (py_split (str ''. '') (str ''Hi.  Bye. '')) = 3 \<and>
   str '' Bye'' \<in> set (segments (str ''Hi.  Bye. '')) \<and>
   strip (str '' Bye'') \<noteq> [] \<and>
   str '' Bye'' \<in> set (py_split (str ''. '') (str ''Hi.  Bye. ''))"
proof -
  have mem: "str '' Bye'' \<in> set (segments (str ''Hi.  Bye. ''))"
    by (simp add: segments_hi_bye)
  with segments_spec [of "str ''Hi.  Bye. ''"]
  have "strip (str '' Bye'') \<noteq> [] \<and> str '' Bye'' \<in> set (py_split (str ''. '') (str ''Hi.  Bye. ''))"
    by blast
  moreover have "length (py_split (str ''. '') (str ''Hi.  Bye. '')) = 3"
    using segments_spec [of "str ''Hi.  Bye. ''"] by (simp add: occurrences_hi_bye)
  ultimately show ?thesis using mem by (simp add: segments_hi_bye occurrences_hi_bye)
qed

text \<open>
  Claim C5 as stated fails: the second segment of \<open>"Hi.  Bye. "\<close> is \<open>" Bye"\<close>, with
  its leading space, which \<open>strip\<close> would remove.
\<close>

theorem segments_not_trimmed:
  "segments (str ''Hi.  Bye. '') = [str ''Hi'', str '' Bye''] \<and>
   strip (str '' Bye'') = str ''Bye'' \<and> str ''Bye'' \<noteq> str '' Bye''"
  by (simp add: segments_hi_bye strip_bye) (simp add: str_def)

section \<open>Rejoining the translated segments\<close>

lemma map_identity_enumerate:
  "map (\<lambda>(j, s). case identity_stub j s lang of Some t \<Rightarrow> t | None \<Rightarrow> s) (enumerate k ss) = ss"
  by (induction ss arbitrary: k) (simp_all add: identity_stub_def)

lemma translated_identity: "translated_sentences identity_stub xs lang = segments xs"
  by (simp add: translated_sentences_eq map_identity_enumerate)

lemma segments_all: "(\<forall>s \<in> set (py_split (str ''. '') xs). strip s \<noteq> []) \<Longrightarrow> segments xs = py_split (str ''. '') xs"
  by (simp add: segments_def)

lemma translate_upper_hello:
  "translate_text upper_stub (str ''Hello world. This is a test.'') (str ''es'') =
     Inr (str ''HELLO WORLD. THIS IS A TEST.'')"
  by (simp add: eval_simps)

lemma split_hello:
  "py_split (str ''. '') (str ''Hello world. This is a test.'') = [str ''Hello world'', str ''This is a test.'']"
  by (simp add: eval_simps)

lemma strip_hello: "strip (str ''Hello world'') \<noteq> [] \<and> strip (str ''This is a test.'') \<noteq> []"
  by (simp add: eval_simps)

text \<open>
  Claim C9. The translation stage returns the per-segment results joined by the delimiter
  \<open>". "\<close> it split on. With the stub that returns its input in upper case,
  \<open>"Hello world. This is a test."\<close> gives \<open>"HELLO WORLD. THIS IS A TEST."\<close>; with the
  identity stub the result is the segments joined, which is the text itself when no piece
  of the split is empty or whitespace-only.
\<close>

theorem translate_rejoins:
  "translate_text tr xs lang = Inr (py_join (str ''. '') (translated_sentences tr xs lang)) \<and>
   translate_text_async tr xs lang = translate_text tr xs lang \<and>
   translate_text upper_stub (str ''Hello world. This is a test.'') (str ''es'') =
     Inr (str ''HELLO WORLD. THIS IS A TEST.'') \<and>
   translate_text identity_stub xs lang = Inr (py_join (str ''. '') (segments xs)) \<and>
   ((\<forall>s \<in> set (py_split (str ''. '') xs). strip s \<noteq> []) \<longrightarrow>
      translate_text identity_stub xs lang = Inr xs)"
proof (intro conjI impI)
  show "translate_text tr xs lang = Inr (py_join (str ''. '') (translated_sentences tr xs lang))"
    by (simp add: translate_text_def)
  show "translate_text_async tr xs lang = translate_text tr xs lang"
    by (simp add: translate_text_def translate_text_async_def)
  show "translate_text upper_stub (str ''Hello world. This is a test.'') (str ''es'') =
     Inr (str ''HELLO WORLD. THIS IS A TEST.'')"
    by (rule translate_upper_hello)
  show "translate_text identity_stub xs lang = Inr (py_join (str ''. '') (segments xs))"
    by (simp add: translate_text_def translated_identity)
  show "translate_text identity_stub xs lang = Inr xs"
    if "\<forall>s \<in> set (py_split (str ''. '') xs). strip s \<noteq> []"
    using that by (simp add: translate_text_def translated_identity segments_all
        py_join_split str_dot_space)
qed

theorem translate_rejoins_witness:
  "py_split (str ''. '') (str ''Hello world. This is a test.'') =
     [str ''Hello world'', str ''This is a test.''] \<and>
   strip (str ''Hello world'') \<noteq> [] \<and> strip (str ''This is a test.'') \<noteq> [] \<and>
   translate_text identity_stub (str ''Hello world. This is a test.'') (str ''es'') =
     Inr (str ''Hello world. This is a test.'')"
proof -
  have "(\<forall>s \<in> set (py_split (str ''. '') (str ''Hello world. This is a test.'')). strip s \<noteq> []) \<longrightarrow>
      translate_text identity_stub (str ''Hello world. This is a test.'') (str ''es'') =
        Inr (str ''Hello world. This is a test.'')"
    using translate_rejoins [of identity_stub "str ''Hello world. This is a test.''" "str ''es''"]
    by blast
  then show ?thesis by (simp add: split_hello strip_hello)
qed


section \<open>Temporary file names\<close>

lemma str_of_nat_small: "n < 10 \<Longrightarrow> str_of_nat n = [48 + n]"
  by (subst str_of_nat.simps) simp

lemma str_of_nat_large:
  "\<not> n < 10 \<Longrightarrow> str_of_nat n = str_of_nat (n div 10) @ [48 + n mod 10]"
  by (subst str_of_nat.simps) simp

lemma str_of_nat_nonempty: "str_of_nat n \<noteq> []"
  by (cases "n < 10") (simp_all add: str_of_nat_small str_of_nat_large)

lemma str_of_nat_nonempty': "[] \<noteq> str_of_nat n"
  using str_of_nat_nonempty [of n] by simp

lemma str_of_nat_inj: "str_of_nat n = str_of_nat m \<Longrightarrow> n = m"
proof (induction n arbitrary: m rule: str_of_nat.induct)
  case (1 n)
  show ?case
  proof (cases "n < 10")
    case True
    show ?thesis
    proof (cases "m < 10")
      case m: True
      with True 1(2) show ?thesis by (simp add: str_of_nat_small)
    next
      case m: False
      with True 1(2) show ?thesis
        by (simp add: str_of_nat_small str_of_nat_large str_of_nat_nonempty str_of_nat_nonempty')
    qed
  next
    case False
    show ?thesis
    proof (cases "m < 10")
      case m: True
      with False 1(2) show ?thesis
        by (simp add: str_of_nat_small str_of_nat_large str_of_nat_nonempty str_of_nat_nonempty')
    next
      case m: False
      with False 1(2) have eq: "str_of_nat (n div 10) = str_of_nat (m div 10)"
        and md: "n mod 10 = m mod 10"
        by (simp_all add: str_of_nat_large)
      from 1(1) [OF False eq] have "n div 10 = m div 10" .
      with md show ?thesis by (metis div_mult_mod_eq)
    qed
  qed
qed

lemma temp_file_name_inj: "temp_file_name i = temp_file_name j \<Longrightarrow> i = j"
  by (simp add: temp_file_name_def str_of_nat_inj)

lemma temp_file_name_async_inj:
  "temp_file_name_async pid i = temp_file_name_async pid j \<Longrightarrow> i = j"
  by (simp add: temp_file_name_async_def str_of_nat_inj)

lemma concat_not_temp: "concat_file_name \<noteq> temp_file_name i"
  by (simp add: concat_file_name_def temp_file_name_def str_def)

lemma concat_not_temp_async: "concat_file_name_async pid \<noteq> temp_file_name_async pid i"
  by (simp add: concat_file_name_async_def temp_file_name_async_def str_def)

lemma temp_file_name_0: "temp_file_name 0 = str ''temp_0.mp3''"
  by (simp add: temp_file_name_def str_of_nat_small str_def)


section \<open>Saving the chunks\<close>

lemma set_names_from: "set (names_from name i n) = name ` {i..<i + n}"
proof (induction n arbitrary: i)
  case 0
  then show ?case by simp
next
  case (Suc n)
  have "{i..<i + Suc n} = insert i {Suc i..<Suc i + n}" by auto
  then show ?case using Suc [of "Suc i"] by simp
qed

lemma length_names_from: "length (names_from name i n) = n"
  by (induction n arbitrary: i) simp_all

lemma nth_names_from: "j < n \<Longrightarrow> names_from name i n ! j = name (i + j)"
proof (induction n arbitrary: i j)
  case 0
  then show ?case by simp
next
  case (Suc n)
  then show ?case by (cases j) simp_all
qed

lemma distinct_names_from: "inj name \<Longrightarrow> distinct (names_from name i n)"
proof (induction n arbitrary: i)
  case 0
  then show ?case by simp
next
  case (Suc n)
  have "name i \<notin> name ` {Suc i..<Suc i + n}"
    using Suc.prems by (auto dest: injD)
  then show ?case using Suc by (simp add: set_names_from)
qed

lemma save_chunks_ok:
  "(\<forall>j < length chunks. gTTS_ok E (i + j) (chunks ! j) lang) \<Longrightarrow>
   save_chunks E name lang i chunks tf w =
     (Inr (tf @ names_from name i (length chunks)),
      w\<lparr>files := saved name i chunks (files w),
        calls := calls w @ map (\<lambda>(j, c). Save (name j) c lang) (enumerate i chunks)\<rparr>)"
proof (induction chunks arbitrary: i tf w)
  case Nil
  then show ?case by simp
next
  case (Cons c cs)
  from Cons.prems have hd_ok: "gTTS_ok E i c lang" by force
  from Cons.prems have "\<forall>j < length cs. gTTS_ok E (Suc i + j) (cs ! j) lang" by force
  note ih = Cons.IH [OF this]
  show ?case
    using hd_ok by (simp add: tts_save_def ih)
qed

lemma save_chunks_fails:
  "k < length chunks \<Longrightarrow> \<not> gTTS_ok E (i + k) (chunks ! k) lang \<Longrightarrow>
   (\<forall>j < k. gTTS_ok E (i + j) (chunks ! j) lang) \<Longrightarrow>
   save_chunks E name lang i chunks tf w =
     (Inl (TTSError (i + k)),
      w\<lparr>files := saved name i (take k chunks) (files w),
        calls := calls w @ map (\<lambda>(j, c). Save (name j) c lang) (enumerate i (take (Suc k) chunks))\<rparr>)"
proof (induction chunks arbitrary: i k tf w)
  case Nil
  then show ?case by simp
next
  case (Cons c cs)
  show ?case
  proof (cases k)
    case 0
    with Cons.prems show ?thesis by (simp add: tts_save_def)
  next
    case (Suc k')
    with Cons.prems have hd_ok: "gTTS_ok E i c lang" by force
    have a: "k' < length cs" using Cons.prems Suc by simp
    have b: "\<not> gTTS_ok E (Suc i + k') (cs ! k') lang" using Cons.prems Suc by simp
    have c: "\<forall>j < k'. gTTS_ok E (Suc i + j) (cs ! j) lang"
      using Cons.prems(3) Suc by force
    note ih = Cons.IH [OF a b c]
    show ?thesis using hd_ok Suc by (simp add: tts_save_def ih)
  qed
qed

lemma saved_other:
  "p \<notin> name ` {i..<i + length cs} \<Longrightarrow> saved name i cs f p = f p"
proof (induction cs arbitrary: i f)
  case Nil
  then show ?case by simp
next
  case (Cons c cs)
  from Cons.prems have "p \<noteq> name i" and "p \<notin> name ` {Suc i..<Suc i + length cs}"
    by auto
  then show ?case using Cons.IH [of "Suc i"] by simp
qed

lemma saved_dom:
  "dom (saved name i cs f) = dom f \<union> name ` {i..<i + length cs}"
proof (induction cs arbitrary: i f)
  case Nil
  then show ?case by simp
next
  case (Cons c cs)
  have "{i..<i + length (c # cs)} = insert i {Suc i..<Suc i + length cs}" by auto
  moreover have "dom (saved name (Suc i) cs (f(name i \<mapsto> Audio [c]))) =
      dom (f(name i \<mapsto> Audio [c])) \<union> name ` {Suc i..<Suc i + length cs}"
    by (rule Cons.IH)
  ultimately show ?case by simp
qed

lemma saved_nth:
  "inj name \<Longrightarrow> j < length cs \<Longrightarrow> saved name i cs f (name (i + j)) = Some (Audio [cs ! j])"
proof (induction cs arbitrary: i j f)
  case Nil
  then show ?case by simp
next
  case (Cons c cs)
  show ?case
  proof (cases j)
    case 0
    have "name i \<notin> name ` {Suc i..<Suc i + length cs}"
      using Cons.prems(1) by (auto dest: injD)
    then show ?thesis using 0 by (simp add: saved_other)
  next
    case (Suc j')
    then show ?thesis using Cons.IH [of j' "Suc i"] Cons.prems by simp
  qed
qed

lemma ffmpeg_concat_saved:
  "(\<forall>j < length cs. f (name (i + j)) = Some (Audio [cs ! j])) \<Longrightarrow>
   ffmpeg_concat f (names_from name i (length cs)) = Some cs"
proof (induction cs arbitrary: i)
  case Nil
  then show ?case by simp
next
  case (Cons c cs)
  from Cons.prems have "f (name i) = Some (Audio [c])" by force
  moreover from Cons.prems have "\<forall>j < length cs. f (name (Suc i + j)) = Some (Audio [cs ! j])"
    by force
  ultimately show ?case using Cons.IH [of "Suc i"] by simp
qed

section \<open>Removing the temporary files\<close>

lemma without_apply: "without f ps p = (if p \<in> set ps then None else f p)"
  by (induction ps arbitrary: f) simp_all

lemma remove_all_present:
  "distinct ps \<Longrightarrow> set ps \<subseteq> dom (files w) \<Longrightarrow>
   remove_all ps w =
     (Inr (), w\<lparr>files := without (files w) ps, calls := calls w @ map Remove ps\<rparr>)"
proof (induction ps arbitrary: w)
  case Nil
  then show ?case by simp
next
  case (Cons p ps)
  define w' where "w' = w\<lparr>files := (files w)(p := None), calls := calls w @ [Remove p]\<rparr>"
  have step: "os_remove p w = (Inr (), w')"
    using Cons.prems by (auto simp: os_remove_def os_path_exists_def w'_def)
  have d: "distinct ps" using Cons.prems by simp
  have sub: "set ps \<subseteq> dom (files w')" using Cons.prems by (auto simp: w'_def)
  have "remove_all ps w' =
     (Inr (), w'\<lparr>files := without (files w') ps, calls := calls w' @ map Remove ps\<rparr>)"
    by (rule Cons.IH [OF d sub])
  then show ?case by (simp add: step) (simp add: w'_def)
qed

lemma remove_all_existing_present:
  "distinct ps \<Longrightarrow> set ps \<subseteq> dom (files w) \<Longrightarrow> remove_all_existing ps w = remove_all ps w"
proof (induction ps arbitrary: w)
  case Nil
  then show ?case by simp
next
  case (Cons p ps)
  define w' where "w' = w\<lparr>files := (files w)(p := None), calls := calls w @ [Remove p]\<rparr>"
  have step: "os_remove p w = (Inr (), w')"
    using Cons.prems by (auto simp: os_remove_def os_path_exists_def w'_def)
  have step': "remove_if_exists p w = (Inr (), w')"
    using Cons.prems step by (auto simp: remove_if_exists_def os_path_exists_def)
  have d: "distinct ps" using Cons.prems by simp
  have sub: "set ps \<subseteq> dom (files w')" using Cons.prems by (auto simp: w'_def)
  have "remove_all_existing ps w' = remove_all ps w'"
    by (rule Cons.IH [OF d sub])
  then show ?case by (simp add: step step')
qed


section \<open>A run with more than one chunk\<close>

lemma ffmpeg_concat_upd:
  "cf \<notin> set ps \<Longrightarrow> ffmpeg_concat (f(cf \<mapsto> x)) ps = ffmpeg_concat f ps"
  by (induction ps) (auto split: option.splits content.splits)

lemma inj_temp_file_name: "inj temp_file_name"
  by (rule injI) (rule temp_file_name_inj)

lemma inj_temp_file_name_async: "inj (temp_file_name_async pid)"
  by (rule injI) (rule temp_file_name_async_inj)

lemma finish_multi:
  assumes d: "distinct tf" and sub: "set tf \<subseteq> dom (files w1)" and cf: "cf \<notin> set tf"
    and op: "open_ok E" and a: "ffmpeg_concat (files w1) tf = Some a"
  shows "(case write_manifest E cf tf w1 of
            (Inl e, w2) \<Rightarrow> (Inl e, w2)
          | (Inr u, w2) \<Rightarrow>
              (case os_system_ffmpeg E cf out w2 of
                 (status, w3) \<Rightarrow>
                   (case remove_all tf w3 of
                      (Inl e, w4) \<Rightarrow> (Inl e, w4)
                    | (Inr u, w4) \<Rightarrow> os_remove cf w4))) =
         (Inr (),
          w1\<lparr>files :=
               (without (if ffmpeg_ok E then ((files w1)(cf \<mapsto> Manifest tf))(out \<mapsto> Audio a)
                         else (files w1)(cf \<mapsto> Manifest tf)) tf)(cf := None),
             calls := calls w1 @ [WriteManifest cf tf, Ffmpeg cf out] @ map Remove tf @
               [Remove cf]\<rparr>)"
proof -
  define M where "M = (files w1)(cf \<mapsto> Manifest tf)"
  define w2 where "w2 = w1\<lparr>files := M, calls := calls w1 @ [WriteManifest cf tf]\<rparr>"
  define F where "F = (if ffmpeg_ok E then M(out \<mapsto> Audio a) else M)"
  define w3 where "w3 = w2\<lparr>files := F, calls := calls w2 @ [Ffmpeg cf out]\<rparr>"
  define w4 where "w4 = w3\<lparr>files := without F tf, calls := calls w3 @ map Remove tf\<rparr>"
  have s1: "write_manifest E cf tf w1 = (Inr (), w2)"
    using op by (simp add: write_manifest_def w2_def M_def)
  have "ffmpeg_concat M tf = Some a"
    using a cf by (simp add: M_def ffmpeg_concat_upd)
  then have s2: "os_system_ffmpeg E cf out w2 = (if ffmpeg_ok E then 0 else 1, w3)"
    by (simp add: os_system_ffmpeg_def w2_def w3_def F_def M_def)
  have "set tf \<subseteq> dom (files w3)"
    using sub by (auto simp: w3_def F_def M_def)
  then have s3: "remove_all tf w3 = (Inr (), w4)"
    using remove_all_present [OF d, of w3] by (simp add: w4_def w3_def)
  have "files w4 cf \<noteq> None"
    using cf by (simp add: w4_def without_apply F_def M_def)
  then have s4: "os_remove cf w4 =
      (Inr (), w4\<lparr>files := (files w4)(cf := None), calls := calls w4 @ [Remove cf]\<rparr>)"
    by (simp add: os_remove_def os_path_exists_def)
  show ?thesis
    by (simp add: s1 s2 s3 s4) (simp add: w4_def w3_def w2_def F_def M_def)
qed

lemma finish_multi_async:
  assumes d: "distinct tf" and sub: "set tf \<subseteq> dom (files w1)" and cf: "cf \<notin> set tf"
    and op: "open_ok E" and a: "ffmpeg_concat (files w1) tf = Some a"
  shows "(case write_manifest E cf tf w1 of
            (Inl e, w2) \<Rightarrow> (Inl e, w2)
          | (Inr u, w2) \<Rightarrow>
              (case os_system_ffmpeg E cf out w2 of
                 (status, w3) \<Rightarrow>
                   (case remove_all_existing tf w3 of
                      (Inl e, w4) \<Rightarrow> (Inl e, w4)
                    | (Inr u, w4) \<Rightarrow> remove_if_exists cf w4))) =
         (Inr (),
          w1\<lparr>files :=
               (without (if ffmpeg_ok E then ((files w1)(cf \<mapsto> Manifest tf))(out \<mapsto> Audio a)
                         else (files w1)(cf \<mapsto> Manifest tf)) tf)(cf := None),
             calls := calls w1 @ [WriteManifest cf tf, Ffmpeg cf out] @ map Remove tf @
               [Remove cf]\<rparr>)"
proof -
  define M where "M = (files w1)(cf \<mapsto> Manifest tf)"
  define w2 where "w2 = w1\<lparr>files := M, calls := calls w1 @ [WriteManifest cf tf]\<rparr>"
  define F where "F = (if ffmpeg_ok E then M(out \<mapsto> Audio a) else M)"
  define w3 where "w3 = w2\<lparr>files := F, calls := calls w2 @ [Ffmpeg cf out]\<rparr>"
  define w4 where "w4 = w3\<lparr>files := without F tf, calls := calls w3 @ map Remove tf\<rparr>"
  have s1: "write_manifest E cf tf w1 = (Inr (), w2)"
    using op by (simp add: write_manifest_def w2_def M_def)
  have "ffmpeg_concat M tf = Some a"
    using a cf by (simp add: M_def ffmpeg_concat_upd)
  then have s2: "os_system_ffmpeg E cf out w2 = (if ffmpeg_ok E then 0 else 1, w3)"
    by (simp add: os_system_ffmpeg_def w2_def w3_def F_def M_def)
  have sub3: "set tf \<subseteq> dom (files w3)"
    using sub by (auto simp: w3_def F_def M_def)
  then have "remove_all tf w3 = (Inr (), w4)"
    using remove_all_present [OF d, of w3] by (simp add: w4_def w3_def)
  then have s3: "remove_all_existing tf w3 = (Inr (), w4)"
    using remove_all_existing_present [OF d sub3] by simp
  have "files w4 cf \<noteq> None"
    using cf by (simp add: w4_def without_apply F_def M_def)
  then have s4: "remove_if_exists cf w4 =
      (Inr (), w4\<lparr>files := (files w4)(cf := None), calls := calls w4 @ [Remove cf]\<rparr>)"
    by (simp add: remove_if_exists_def os_remove_def os_path_exists_def)
  show ?thesis
    by (simp add: s1 s2 s3 s4) (simp add: w4_def w3_def w2_def F_def M_def)
qed

lemma saved_ready:
  assumes "inj name"
  shows "distinct (names_from name 0 (length chunks))"
    and "set (names_from name 0 (length chunks)) \<subseteq> dom (saved name 0 chunks f)"
    and "ffmpeg_concat (saved name 0 chunks f) (names_from name 0 (length chunks)) = Some chunks"
proof -
  show "distinct (names_from name 0 (length chunks))"
    using assms by (rule distinct_names_from)
  show "set (names_from name 0 (length chunks)) \<subseteq> dom (saved name 0 chunks f)"
    by (simp add: set_names_from saved_dom)
  have "\<forall>j < length chunks. saved name 0 chunks f (name (0 + j)) = Some (Audio [chunks ! j])"
    using assms saved_nth [of name _ chunks 0 f] by blast
  then show "ffmpeg_concat (saved name 0 chunks f) (names_from name 0 (length chunks)) = Some chunks"
    by (rule ffmpeg_concat_saved)
qed

lemma text_to_speech_multi:
  assumes n: "1 < length (split_chunks text max_chunk_size)"
    and ok: "\<forall>j < length (split_chunks text max_chunk_size).
               gTTS_ok E j (split_chunks text max_chunk_size ! j) lang"
    and op: "open_ok E"
  shows "text_to_speech E text out lang w =
     (Inr (), multi_result E temp_file_name concat_file_name
                (split_chunks text max_chunk_size) out lang w)"
proof -
  define chunks where "chunks = split_chunks text max_chunk_size"
  define tf where "tf = names_from temp_file_name 0 (length chunks)"
  define w1 where "w1 = w\<lparr>files := saved temp_file_name 0 chunks (files w),
      calls := calls w @ map (\<lambda>(j, c). Save (temp_file_name j) c lang) (enumerate 0 chunks)\<rparr>"
  have "\<forall>j < length chunks. gTTS_ok E (0 + j) (chunks ! j) lang"
    using ok by (simp add: chunks_def)
  then have s0: "save_chunks E temp_file_name lang 0 chunks [] w = (Inr tf, w1)"
    by (simp add: save_chunks_ok tf_def w1_def)
  have len: "1 < length tf" using n by (simp add: tf_def chunks_def length_names_from)
  have cf: "concat_file_name \<notin> set tf"
    using concat_not_temp by (auto simp: tf_def set_names_from)
  note r = saved_ready [OF inj_temp_file_name]
  have fin: "(case write_manifest E concat_file_name tf w1 of
            (Inl e, w2) \<Rightarrow> (Inl e, w2)
          | (Inr u, w2) \<Rightarrow>
              (case os_system_ffmpeg E concat_file_name out w2 of
                 (status, w3) \<Rightarrow>
                   (case remove_all tf w3 of
                      (Inl e, w4) \<Rightarrow> (Inl e, w4)
                    | (Inr u, w4) \<Rightarrow> os_remove concat_file_name w4))) =
         (Inr (), multi_result E temp_file_name concat_file_name chunks out lang w)"
    by (subst finish_multi [where a = chunks])
       (use r cf op in \<open>simp_all add: tf_def w1_def multi_result_def Let_def\<close>)
  show ?thesis
    unfolding text_to_speech_def Let_def chunks_def [symmetric]
    using len by (simp add: s0 fin)
qed

lemma text_to_speech_async_multi:
  assumes n: "1 < length (split_chunks text max_chunk_size)"
    and ok: "\<forall>j < length (split_chunks text max_chunk_size).
               gTTS_ok E j (split_chunks text max_chunk_size ! j) lang"
    and op: "open_ok E"
  shows "text_to_speech_async pid E text out lang w =
     (Inr (), multi_result E (temp_file_name_async pid) (concat_file_name_async pid)
                (split_chunks text max_chunk_size) out lang w)"
proof -
  define chunks where "chunks = split_chunks text max_chunk_size"
  define tf where "tf = names_from (temp_file_name_async pid) 0 (length chunks)"
  define w1 where "w1 = w\<lparr>files := saved (temp_file_name_async pid) 0 chunks (files w),
      calls := calls w @
        map (\<lambda>(j, c). Save (temp_file_name_async pid j) c lang) (enumerate 0 chunks)\<rparr>"
  have "\<forall>j < length chunks. gTTS_ok E (0 + j) (chunks ! j) lang"
    using ok by (simp add: chunks_def)
  then have s0: "save_chunks E (temp_file_name_async pid) lang 0 chunks [] w = (Inr tf, w1)"
    by (simp add: save_chunks_ok tf_def w1_def)
  have len: "1 < length tf" using n by (simp add: tf_def chunks_def length_names_from)
  have cf: "concat_file_name_async pid \<notin> set tf"
    using concat_not_temp_async by (auto simp: tf_def set_names_from)
  note r = saved_ready [OF inj_temp_file_name_async]
  have fin: "(case write_manifest E (concat_file_name_async pid) tf w1 of
            (Inl e, w2) \<Rightarrow> (Inl e, w2)
          | (Inr u, w2) \<Rightarrow>
              (case os_system_ffmpeg E (concat_file_name_async pid) out w2 of
                 (status, w3) \<Rightarrow>
                   (case remove_all_existing tf w3 of
                      (Inl e, w4) \<Rightarrow> (Inl e, w4)
                    | (Inr u, w4) \<Rightarrow> remove_if_exists (concat_file_name_async pid) w4))) =
         (Inr (), multi_result E (temp_file_name_async pid) (concat_file_name_async pid)
                    chunks out lang w)"
    by (subst finish_multi_async [where a = chunks])
       (use r cf op in \<open>simp_all add: tf_def w1_def multi_result_def Let_def\<close>)
  show ?thesis
    unfolding text_to_speech_async_def Let_def chunks_def [symmetric]
    using len by (simp add: s0 fin)
qed


section \<open>A run with one chunk, and with none\<close>

lemma split_chunks_Nil: "split_chunks [] cap = []"
  by (simp add: split_chunks_def py_range_stop)

lemma split_chunks_single:
  "xs \<noteq> [] \<Longrightarrow> length xs \<le> cap \<Longrightarrow> split_chunks xs cap = [xs]"
proof -
  assume ne: "xs \<noteq> []" and le: "length xs \<le> cap"
  then have c: "0 < cap" and n: "0 < length xs" by (cases xs; simp)+
  have "py_range 0 (length xs) cap = 0 # py_range (0 + cap) (length xs) cap"
    by (rule py_range_step [OF c n])
  moreover have "py_range (0 + cap) (length xs) cap = []"
    by (rule py_range_stop) (use le in simp)
  ultimately have "py_range 0 (length xs) cap = [0]" by simp
  then show ?thesis using le by (simp add: split_chunks_def slice_def)
qed

lemma split_chunks_many: "1 < length (split_chunks xs max_chunk_size) \<longleftrightarrow> max_chunk_size < length xs"
  by (simp add: length_split_chunks max_chunk_size_def) arith


lemma text_to_speech_empty: "text_to_speech E [] out lang w = (Inl IndexError, w)"
  by (simp add: text_to_speech_def split_chunks_Nil)

lemma text_to_speech_async_empty: "text_to_speech_async pid E [] out lang w = (Inl IndexError, w)"
  by (simp add: text_to_speech_async_def split_chunks_Nil)

lemma text_to_speech_single:
  "split_chunks text max_chunk_size = [chunk] \<Longrightarrow>
   text_to_speech E text out lang w =
     (if gTTS_ok E 0 chunk lang then
        (if rename_ok E (temp_file_name 0) out then
           (Inr (), w\<lparr>files := ((files w)(temp_file_name 0 := None))(out \<mapsto> Audio [chunk]),
                      calls := calls w @ [Save (temp_file_name 0) chunk lang,
                                          Rename (temp_file_name 0) out]\<rparr>)
         else
           (Inl OSError, w\<lparr>files := (files w)(temp_file_name 0 \<mapsto> Audio [chunk]),
                           calls := calls w @ [Save (temp_file_name 0) chunk lang,
                                               Rename (temp_file_name 0) out]\<rparr>))
      else (Inl (TTSError 0), w\<lparr>calls := calls w @ [Save (temp_file_name 0) chunk lang]\<rparr>))"
  by (simp add: text_to_speech_def tts_save_def os_rename_def)

lemma text_to_speech_async_single:
  "split_chunks text max_chunk_size = [chunk] \<Longrightarrow>
   text_to_speech_async pid E text out lang w =
     (if gTTS_ok E 0 chunk lang then
        (if rename_ok E (temp_file_name_async pid 0) out then
           (Inr (), w\<lparr>files := ((files w)(temp_file_name_async pid 0 := None))(out \<mapsto> Audio [chunk]),
                      calls := calls w @ [Save (temp_file_name_async pid 0) chunk lang,
                                          Rename (temp_file_name_async pid 0) out]\<rparr>)
         else
           (Inl OSError, w\<lparr>files := (files w)(temp_file_name_async pid 0 \<mapsto> Audio [chunk]),
                           calls := calls w @ [Save (temp_file_name_async pid 0) chunk lang,
                                               Rename (temp_file_name_async pid 0) out]\<rparr>))
      else (Inl (TTSError 0),
            w\<lparr>calls := calls w @ [Save (temp_file_name_async pid 0) chunk lang]\<rparr>))"
  by (simp add: text_to_speech_async_def tts_save_def os_rename_def)


text \<open>
  The theorem for the text \<open>"hola"\<close>, in an empty directory: with a rename that succeeds,
  and with an output path the file system refuses.
\<close>

lemma hola: "str ''hola'' \<noteq> [] \<and> length (str ''hola'') \<le> max_chunk_size"
  by (simp add: str_def max_chunk_size_def)


text \<open>
  Claim C10. The empty text gives no chunk; no file is saved, and the call fails with
  IndexError at \<open>temp_files[0]\<close>, leaving the directory and the call log as they were:
  nothing is written at \<open>output_path\<close>. So a call that succeeds had a non-empty text.
\<close>

theorem empty_text_fails:
  "split_chunks ([] :: pystr) max_chunk_size = [] \<and>
   text_to_speech E [] out lang w = (Inl IndexError, w) \<and>
   text_to_speech_async pid E [] out lang w = (Inl IndexError, w) \<and>
   (fst (text_to_speech E text out lang w) = Inr () \<longrightarrow> text \<noteq> []) \<and>
   (fst (text_to_speech_async pid E text out lang w) = Inr () \<longrightarrow> text \<noteq> [])"
  by (auto simp: split_chunks_Nil text_to_speech_empty text_to_speech_async_empty)

text \<open>A call that succeeds: the text \<open>"hola"\<close>.\<close>

lemma hola_ok:
  "fst (text_to_speech always_ok (str ''hola'') (str ''out.mp3'') (str ''es'') empty_dir) = Inr ()"
  using text_to_speech_single [OF split_chunks_single, of "str ''hola''" always_ok] hola
  by (simp add: always_ok_def)

lemma hola_async_ok:
  "fst (text_to_speech_async 7 always_ok (str ''hola'') (str ''out.mp3'') (str ''es'') empty_dir) = Inr ()"
  using text_to_speech_async_single [OF split_chunks_single, of "str ''hola''" 7 always_ok] hola
  by (simp add: always_ok_def)

theorem empty_text_fails_witness:
  "fst (text_to_speech always_ok (str ''hola'') (str ''out.mp3'') (str ''es'') empty_dir) = Inr () \<and>
   fst (text_to_speech_async 7 always_ok (str ''hola'') (str ''out.mp3'') (str ''es'') empty_dir) = Inr () \<and>
   str ''hola'' \<noteq> [] \<and>
   text_to_speech always_ok [] (str ''out.mp3'') (str ''es'') empty_dir = (Inl IndexError, empty_dir)"
  using empty_text_fails [of always_ok "str ''out.mp3''" "str ''es''" empty_dir 7 "str ''hola''"]
    hola_ok hola_async_ok
  by simp

section \<open>The temporary files after a run\<close>



lemma multi_result_other:
  "p \<notin> name ` {0..<length chunks} \<Longrightarrow> p \<noteq> cf \<Longrightarrow>
   files (multi_result E name cf chunks out lang w) p =
     (if p = out \<and> ffmpeg_ok E then Some (Audio chunks) else files w p)"
  by (simp add: multi_result_def Let_def without_apply set_names_from saved_other)

lemma multi_result_ffmpeg_called:
  "Ffmpeg cf out \<in> set (calls (multi_result E name cf chunks out lang w))"
  by (simp add: multi_result_def Let_def)











text \<open>A text of 5001 characters: two chunks.\<close>

lemma chunks_5001:
  "split_chunks (replicate 5000 97 @ [98 :: nat]) max_chunk_size = [replicate 5000 97, [98]]"
  by (simp add: split_chunks_def max_chunk_size_def py_range_step py_range_stop slice_def)

lemma out_not_temp: "str ''out.mp3'' \<noteq> temp_file_name j"
  by (simp add: temp_file_name_def str_def)

lemma out_not_concat: "str ''out.mp3'' \<noteq> concat_file_name"
  by (simp add: concat_file_name_def str_def)

lemma ok_5001:
  "\<forall>j < length (split_chunks (replicate 5000 97 @ [98 :: nat]) max_chunk_size).
     gTTS_ok ffmpeg_fails j (split_chunks (replicate 5000 97 @ [98]) max_chunk_size ! j) (str ''es'')"
  by (simp add: ffmpeg_fails_def)



section \<open>Failure of the concatenation\<close>

text \<open>
  Claim C3 against the code. In a run with more than one chunk in which every chunk is
  synthesised and the manifest is written, a failing ffmpeg does not make the call fail:
  ffmpeg is called, the exit status is dropped, and the call returns normally. Nothing
  has been written at \<open>output_path\<close> (it holds what it held before, when it is not one
  of the temporary names).
\<close>

theorem concat_failure_returns_normally:
  assumes many: "1 < length (split_chunks text max_chunk_size)"
    and ok: "\<forall>j < length (split_chunks text max_chunk_size).
               gTTS_ok E j (split_chunks text max_chunk_size ! j) lang"
    and op: "open_ok E"
    and ff: "\<not> ffmpeg_ok E"
  shows "fst (text_to_speech E text out lang w) = Inr () \<and>
     Ffmpeg concat_file_name out \<in> set (calls (snd (text_to_speech E text out lang w))) \<and>
     (out \<notin> temp_file_name ` {0..<length (split_chunks text max_chunk_size)} \<and>
      out \<noteq> concat_file_name \<longrightarrow>
        files (snd (text_to_speech E text out lang w)) out = files w out) \<and>
     fst (text_to_speech_async pid E text out lang w) = Inr () \<and>
     Ffmpeg (concat_file_name_async pid) out
       \<in> set (calls (snd (text_to_speech_async pid E text out lang w))) \<and>
     (out \<notin> temp_file_name_async pid ` {0..<length (split_chunks text max_chunk_size)} \<and>
      out \<noteq> concat_file_name_async pid \<longrightarrow>
        files (snd (text_to_speech_async pid E text out lang w)) out = files w out)"
  using ff
  by (simp add: text_to_speech_multi [OF many ok op] text_to_speech_async_multi [OF many ok op]
      multi_result_ffmpeg_called multi_result_other)

theorem concat_failure_returns_normally_witness:
  "1 < length (split_chunks (replicate 5000 97 @ [98 :: nat]) max_chunk_size) \<and>
   open_ok ffmpeg_fails \<and> \<not> ffmpeg_ok ffmpeg_fails \<and>
   fst (text_to_speech ffmpeg_fails (replicate 5000 97 @ [98]) (str ''out.mp3'') (str ''es'')
          empty_dir) = Inr () \<and>
   files (snd (text_to_speech ffmpeg_fails (replicate 5000 97 @ [98]) (str ''out.mp3'') (str ''es'')
          empty_dir)) (str ''out.mp3'') = None"
proof -
  have many: "1 < length (split_chunks (replicate 5000 97 @ [98 :: nat]) max_chunk_size)"
    by (simp add: chunks_5001)
  have op: "open_ok ffmpeg_fails" and ff: "\<not> ffmpeg_ok ffmpeg_fails"
    by (simp_all add: ffmpeg_fails_def)
  from concat_failure_returns_normally [OF many ok_5001 op ff, of "str ''out.mp3''" empty_dir 7]
  show ?thesis
    using many op ff out_not_temp out_not_concat by (auto simp: empty_dir_def)
qed

section \<open>Temporary names of concurrent runs\<close>

text \<open>
  Claim C6 against the code. \<open>text_to_speech\<close> names the file of chunk 0
  \<open>temp_0.mp3\<close> in every run, and \<open>text_to_speech_async\<close> names it
  \<open>temp_0_<pid>.mp3\<close> in every run of one process. Two runs in one directory then share
  the file: when both save chunk 0 before either renames it, the first run's output holds
  the second run's audio and the second run's rename fails.
\<close>

theorem concurrent_runs_share_temp_file:
  "temp_file_name 0 = str ''temp_0.mp3'' \<and>
   (let w1 = snd (tts_save always_ok 0 (str ''uno'') (str ''es'') (temp_file_name 0) empty_dir);
        w2 = snd (tts_save always_ok 0 (str ''dos'') (str ''es'') (temp_file_name 0) w1);
        r3 = os_rename always_ok (temp_file_name 0) (str ''a.mp3'') w2;
        r4 = os_rename always_ok (temp_file_name 0) (str ''b.mp3'') (snd r3)
    in fst r3 = Inr () \<and> files (snd r3) (str ''a.mp3'') = Some (Audio [str ''dos'']) \<and>
       fst r4 = Inl (FileNotFoundError (temp_file_name 0))) \<and>
   temp_file_name_async 4242 0 = str ''temp_0_4242.mp3'' \<and>
   (let w1 = snd (tts_save always_ok 0 (str ''uno'') (str ''es'') (temp_file_name_async 4242 0)
                   empty_dir);
        w2 = snd (tts_save always_ok 0 (str ''dos'') (str ''es'') (temp_file_name_async 4242 0) w1);
        r3 = os_rename always_ok (temp_file_name_async 4242 0) (str ''a.mp3'') w2;
        r4 = os_rename always_ok (temp_file_name_async 4242 0) (str ''b.mp3'') (snd r3)
    in fst r3 = Inr () \<and> files (snd r3) (str ''a.mp3'') = Some (Audio [str ''dos'']) \<and>
       fst r4 = Inl (FileNotFoundError (temp_file_name_async 4242 0)))"
proof -
  note a = temp_file_name_0
  have "str_of_nat 4242 = str ''4242''"
    by (simp add: str_of_nat_large str_of_nat_small str_def)
  then have b: "temp_file_name_async 4242 0 = str ''temp_0_4242.mp3''"
    by (simp add: temp_file_name_async_def str_of_nat_small str_def)
  have c: "str ''a.mp3'' \<noteq> str ''temp_0.mp3''" "str ''a.mp3'' \<noteq> str ''temp_0_4242.mp3''"
    by (simp_all add: str_def)
  show ?thesis
    using c by (simp add: a b Let_def tts_save_def os_rename_def always_ok_def empty_dir_def)
qed


section \<open>Upload validation\<close>

lemma upload_rejected_iff:
  "upload_rejected content_type filename \<longleftrightarrow>
     content_type = None \<or> content_type = Some [] \<or>
     (\<not> content_type_check content_type \<and> \<not> extension_check filename)"
  by (cases content_type) (auto simp: upload_rejected_def content_type_check_def extension_check_def
      startswith_def str_def)

lemma status_400:
  "translate_audio_endpoint content_type filename processing = 400 \<longleftrightarrow>
     upload_rejected content_type filename"
  "translate_and_synthesize_endpoint content_type filename processing = 400 \<longleftrightarrow>
     upload_rejected content_type filename"
  by (simp_all add: translate_audio_endpoint_def translate_and_synthesize_endpoint_def
      split: sum.splits)

text \<open>
  Claim C8, as amended. Both endpoints answer 400 exactly when the declared content type
  is missing or empty, or both checks fail (the content type does not start with
  \<open>audio/\<close> and the extension is not in the allow-list). So for an upload that declares
  a non-empty content type, the answer is 400 if and only if both checks fail.
\<close>

theorem upload_status_400:
  "(translate_audio_endpoint content_type filename processing = 400 \<longleftrightarrow>
      content_type = None \<or> content_type = Some [] \<or>
      (\<not> content_type_check content_type \<and> \<not> extension_check filename)) \<and>
   (translate_and_synthesize_endpoint content_type filename processing' = 400 \<longleftrightarrow>
      content_type = None \<or> content_type = Some [] \<or>
      (\<not> content_type_check content_type \<and> \<not> extension_check filename)) \<and>
   (content_type = Some ct \<and> ct \<noteq> [] \<longrightarrow>
      (translate_audio_endpoint content_type filename processing = 400 \<longleftrightarrow>
         \<not> content_type_check content_type \<and> \<not> extension_check filename) \<and>
      (translate_and_synthesize_endpoint content_type filename processing' = 400 \<longleftrightarrow>
         \<not> content_type_check content_type \<and> \<not> extension_check filename))"
  by (auto simp: status_400 upload_rejected_iff)

text \<open>
  Uploads \<open>notes.txt\<close> as \<open>text/plain\<close> (400), \<open>clip.wav\<close> as \<open>text/plain\<close> and
  \<open>clip.wav\<close> as \<open>audio/x-wav\<close> (not 400).
\<close>

lemma suffix_clip_wav: "lower (path_suffix (str ''clip.wav'')) = str ''.wav''"
  by (simp add: path_suffix_def path_name_def lower_def lower_char_def str_def
      py_split_Nil py_split_Cons_if)

lemma suffix_notes_txt: "lower (path_suffix (str ''notes.txt'')) = str ''.txt''"
  by (simp add: path_suffix_def path_name_def lower_def lower_char_def str_def
      py_split_Nil py_split_Cons_if)

lemma clip_wav_ok: "extension_check (str ''clip.wav'')"
  by (simp add: extension_check_def suffix_clip_wav allowed_extensions_def)

lemma notes_txt_bad: "\<not> extension_check (str ''notes.txt'')"
  by (simp add: extension_check_def suffix_notes_txt allowed_extensions_def) (simp add: str_def)

lemma text_plain_bad: "\<not> content_type_check (Some (str ''text/plain''))"
  by (simp add: content_type_check_def startswith_def str_def)

lemma audio_x_wav_ok: "content_type_check (Some (str ''audio/x-wav''))"
  by (simp add: content_type_check_def startswith_def str_def)

theorem upload_status_400_witness:
  "str ''text/plain'' \<noteq> [] \<and>
   \<not> content_type_check (Some (str ''text/plain'')) \<and> \<not> extension_check (str ''notes.txt'') \<and>
   translate_audio_endpoint (Some (str ''text/plain'')) (str ''notes.txt'')
     (Inr () :: error + unit) = 400 \<and>
   translate_and_synthesize_endpoint (Some (str ''text/plain'')) (str ''notes.txt'')
     (Inr () :: error + unit) = 400 \<and>
   extension_check (str ''clip.wav'') \<and>
   translate_audio_endpoint (Some (str ''text/plain'')) (str ''clip.wav'')
     (Inr () :: error + unit) = 200 \<and>
   content_type_check (Some (str ''audio/x-wav'')) \<and>
   translate_and_synthesize_endpoint (Some (str ''audio/x-wav'')) (str ''clip.wav'')
     (Inr () :: error + unit) = 200"
proof -
  have ne: "str ''text/plain'' \<noteq> []" "str ''audio/x-wav'' \<noteq> []" by (simp_all add: str_def)
  have a: "translate_audio_endpoint (Some (str ''text/plain'')) (str ''notes.txt'')
      (Inr () :: error + unit) = 400 \<and>
    translate_and_synthesize_endpoint (Some (str ''text/plain'')) (str ''notes.txt'')
      (Inr () :: error + unit) = 400"
    using upload_status_400 [of "Some (str ''text/plain'')" "str ''notes.txt''"
        "Inr () :: error + unit" "Inr () :: error + unit" "str ''text/plain''"]
      ne text_plain_bad notes_txt_bad
    by simp
  have "translate_audio_endpoint (Some (str ''text/plain'')) (str ''clip.wav'')
      (Inr () :: error + unit) \<noteq> 400"
    using upload_status_400 [of "Some (str ''text/plain'')" "str ''clip.wav''"
        "Inr () :: error + unit" "Inr () :: error + unit" "str ''text/plain''"]
      ne clip_wav_ok
    by simp
  then have b: "translate_audio_endpoint (Some (str ''text/plain'')) (str ''clip.wav'')
      (Inr () :: error + unit) = 200"
    by (simp add: translate_audio_endpoint_def split: if_splits)
  have "translate_and_synthesize_endpoint (Some (str ''audio/x-wav'')) (str ''clip.wav'')
      (Inr () :: error + unit) \<noteq> 400"
    using upload_status_400 [of "Some (str ''audio/x-wav'')" "str ''clip.wav''"
        "Inr () :: error + unit" "Inr () :: error + unit" "str ''audio/x-wav''"]
      ne audio_x_wav_ok
    by simp
  then have c: "translate_and_synthesize_endpoint (Some (str ''audio/x-wav'')) (str ''clip.wav'')
      (Inr () :: error + unit) = 200"
    by (simp add: translate_and_synthesize_endpoint_def split: if_splits)
  show ?thesis
    using a b c ne text_plain_bad notes_txt_bad clip_wav_ok audio_x_wav_ok by simp
qed

text \<open>
  Claim C8 as stated fails: \<open>clip.wav\<close> passes the extension check, and is answered 400
  when the upload declares no content type, or an empty one.
\<close>

theorem missing_content_type_rejected:
  "extension_check (str ''clip.wav'') \<and>
   translate_audio_endpoint None (str ''clip.wav'') (Inr () :: error + unit) = 400 \<and>
   translate_and_synthesize_endpoint None (str ''clip.wav'') (Inr () :: error + unit) = 400 \<and>
   translate_audio_endpoint (Some []) (str ''clip.wav'') (Inr () :: error + unit) = 400"
  by (simp add: clip_wav_ok translate_audio_endpoint_def translate_and_synthesize_endpoint_def
      upload_rejected_def)

end
